theory Spec2Isabelle
  imports Main
begin

section \<open>Python values, exceptions and dictionaries\<close>

text \<open>
  The relayer of \<^verbatim>\<open>src/script.py\<close> keeps its cursor in a JSON file and reads it back as
  whatever \<^verbatim>\<open>json.load\<close> decodes, so the cursor is a dynamically typed value. The values of
  JSON are modelled here (numbers with a fraction are left out: the relayer only ever
  writes integers). A decoded object is the list of its items in insertion order, with
  distinct keys.
\<close>

datatype pyval =
    PNone
  | PBool bool
  | PInt int
  | PStr string
  | PList "pyval list"
  | PDict "(string \<times> pyval) list"

text \<open>
  The exceptions (all subclasses of \<^verbatim>\<open>Exception\<close>) that the modelled code can meet, by
  the class that is raised. The first six are what opening and decoding a file that
  exists can raise; \<open>OtherException\<close> stands for every class not listed.
\<close>

datatype error =
    JSONDecodeError
  | UnicodeDecodeError
  | ValueError
  | RecursionError
  | IsADirectoryError
  | PermissionError
  | AttributeError
  | TypeError
  | BlockNotFound
  | ConnectionError
  | OtherException

text \<open>Python's truth value of an object, as \<^verbatim>\<open>not x\<close> tests it.\<close>

fun truthy :: "pyval \<Rightarrow> bool" where
  "truthy PNone = False"
| "truthy (PBool b) = b"
| "truthy (PInt n) = (n \<noteq> 0)"
| "truthy (PStr s) = (s \<noteq> [])"
| "truthy (PList xs) = (xs \<noteq> [])"
| "truthy (PDict kvs) = (kvs \<noteq> [])"

text \<open>\<^verbatim>\<open>d.get(k)\<close>: the value stored under the key, \<^verbatim>\<open>None\<close> when there is none.\<close>

definition dict_get :: "(string \<times> pyval) list \<Rightarrow> string \<Rightarrow> pyval" where
  "dict_get d k = (case map_of d k of None \<Rightarrow> PNone | Some v \<Rightarrow> v)"

text \<open>\<^verbatim>\<open>d[k] = v\<close>: overwrite in place, or append a new item.\<close>

fun dict_set :: "(string \<times> pyval) list \<Rightarrow> string \<Rightarrow> pyval \<Rightarrow> (string \<times> pyval) list" where
  "dict_set [] k v = [(k, v)]"
| "dict_set ((k', v') # d) k v = (if k' = k then (k, v) # d else (k', v') # dict_set d k v)"

text \<open>
  \<^verbatim>\<open>x + 1\<close> for an integer \<^verbatim>\<open>1\<close>: defined on integers and on booleans (a subclass of
  \<^verbatim>\<open>int\<close> in Python), a \<^verbatim>\<open>TypeError\<close> on every other JSON value.
\<close>

fun py_add1 :: "pyval \<Rightarrow> error + int" where
  "py_add1 (PInt n) = Inr (n + 1)"
| "py_add1 (PBool b) = Inr ((if b then 1 else 0) + 1)"
| "py_add1 PNone = Inl TypeError"
| "py_add1 (PStr s) = Inl TypeError"
| "py_add1 (PList xs) = Inl TypeError"
| "py_add1 (PDict kvs) = Inl TypeError"

section \<open>Events, calls and the two chains\<close>

type_synonym address = string
type_synonym bytes = "nat list"

text \<open>
  A decoded \<^verbatim>\<open>TokensLocked\<close> log, with the fields the ABI of the script gives it
  (\<^verbatim>\<open>BRIDGE_CONTRACT_ABI\<close>) and the position web3 attaches to every log.
\<close>

record event_args =
  token :: address
  sender :: address
  recipient :: address
  amount :: int
  destinationChainId :: int

record event =
  args :: event_args
  transactionHash :: bytes
  blockNumber :: int
  logIndex :: int

text \<open>
  \<^verbatim>\<open>contract.functions.mintTokens(token, recipient, amount, sourceTransactionHash)\<close>, the
  only function of the destination contract that the script calls.
\<close>

datatype contract_call = MintTokens address address int bytes

record tx_payload =
  tx_from :: address
  tx_nonce :: int
  tx_gas :: int
  tx_gasPrice :: int

text \<open>
  Messages of the logger, by content (the formatting of the f-strings is not modelled).
\<close>

datatype message =
    MsgLoadingState
  | MsgStarting
  | MsgNoPreviousState int
  | MsgNoNewBlocks int
  | MsgScanning string int int
  | MsgFound nat string
  | MsgRangeNotFound int int
  | MsgScanError error
  | MsgProcessing bytes
  | MsgPreparing int address address
  | MsgSigned
  | MsgSimulation
  | MsgSubmitting
  | MsgSimulatedHash bytes
  | MsgProcessFailed error
  | MsgShutdownSignal
  | MsgCritical error
  | MsgStopped

text \<open>
  What the service does, in order: its requests to the two nodes and to the account
  library, its sleeps, its writes of the state file and its log lines.
  \<open>ProcessEventCall\<close> marks the call of \<^verbatim>\<open>process_event\<close> on an event (line 346), the
  hand-over of the event to the submission step. \<open>SendRawTransaction\<close> stands for
  \<^verbatim>\<open>web3.eth.send_raw_transaction\<close>, which the script names only in a comment.
\<close>

datatype effect =
    Log message
  | ScanRequest int int string
  | ProcessEventCall event
  | BuildTransaction contract_call tx_payload
  | SignTransaction bytes string
  | SendRawTransaction bytes
  | Sleep nat
  | WriteState "(string \<times> pyval) list"

text \<open>
  The destination node and account library as \<^verbatim>\<open>process_event\<close> meets them during one
  call: every operation either returns or raises.
\<close>

record dest_client =
  relayer_address :: address
  from_wei :: "int \<Rightarrow> error + unit"
  get_transaction_count :: "address \<Rightarrow> error + int"
  gas_price :: "error + int"
  build_transaction :: "contract_call \<Rightarrow> tx_payload \<Rightarrow> error + bytes"
  sign_transaction :: "bytes \<Rightarrow> string \<Rightarrow> error + bytes"
  keccak :: "bytes \<Rightarrow> bytes"

text \<open>
  The source node during one iteration of the main loop: the block number it reports and
  its answer to a log filter over a block range.
\<close>

record source_node =
  block_number :: "error + int"
  get_all_entries :: "int \<Rightarrow> int \<Rightarrow> string \<Rightarrow> error + event list"

text \<open>
  The world during one iteration: the source node, and the destination client as the
  i-th call of \<^verbatim>\<open>process_event\<close> in that iteration meets it.
\<close>

record world =
  source :: source_node
  dest :: "nat \<Rightarrow> dest_client"

section \<open>Configuration and the state of the service\<close>

text \<open>
  \<^verbatim>\<open>initial_scan_block\<close> is \<^verbatim>\<open>'latest'\<close>, or a setting \<open>x\<close> with \<^verbatim>\<open>int(x) = n\<close>.
\<close>

datatype initial_scan = Latest | Explicit int

record config =
  event_to_listen :: string
  private_key :: string
  polling_interval_seconds :: nat
  max_blocks_per_scan :: int
  initial_scan_block :: initial_scan

text \<open>
  The state file as \<^verbatim>\<open>load_state\<close> meets it. \<open>Missing\<close>: \<^verbatim>\<open>os.path.exists\<close> is false.
  \<open>Unreadable e\<close>: the path exists, and opening it in text mode or \<^verbatim>\<open>json.load\<close> raises
  \<open>e\<close> (\<open>JSONDecodeError\<close> on text that is not JSON, \<open>UnicodeDecodeError\<close> on bytes that
  are not UTF-8, \<open>ValueError\<close> or \<open>RecursionError\<close> from the decoder,
  \<open>IsADirectoryError\<close> or \<open>PermissionError\<close> from \<^verbatim>\<open>open\<close>, or any other).
  \<open>Stored v\<close>: the path exists and its text decodes to \<open>v\<close>.
\<close>

datatype store = Missing | Unreadable error | Stored pyval

record relayer =
  state :: "(string \<times> pyval) list"
  last_scanned_block :: pyval
  state_file :: store
  trace :: "effect list"

section \<open>EventScanner.scan_for_events\<close>

definition scan_for_events ::
  "source_node \<Rightarrow> int \<Rightarrow> int \<Rightarrow> string \<Rightarrow> event list \<times> effect list" where
  "scan_for_events node from_block to_block event_name =
     (let fx = [Log (MsgScanning event_name from_block to_block),
                ScanRequest from_block to_block event_name]
      in case get_all_entries node from_block to_block event_name of
           Inr events \<Rightarrow>
             (events, fx @ (if events \<noteq> [] then [Log (MsgFound (length events) event_name)] else []))
         | Inl e \<Rightarrow>
             if e = BlockNotFound then ([], fx @ [Log (MsgRangeNotFound from_block to_block)])
             else ([], fx @ [Log (MsgScanError e)]))"

section \<open>TransactionProcessor.process_event\<close>

text \<open>
  The call that lines 204 to 227 build from an event.
\<close>

definition mint_call :: "event \<Rightarrow> contract_call" where
  "mint_call event_data =
     (let event_args = args event_data
      in MintTokens (token event_args) (recipient event_args) (amount event_args)
           (transactionHash event_data))"

definition process_event :: "dest_client \<Rightarrow> string \<Rightarrow> event \<Rightarrow> bool \<times> effect list" where
  "process_event w3 key event_data =
     (let fx0 = [Log (MsgProcessing (transactionHash event_data))];
          event_args = args event_data
      in case from_wei w3 (amount event_args) of
           Inl e \<Rightarrow> (False, fx0 @ [Log (MsgProcessFailed e)])
         | Inr u \<Rightarrow>
        (let fx1 = fx0 @ [Log (MsgPreparing (amount event_args) (token event_args)
                                 (recipient event_args))]
         in case get_transaction_count w3 (relayer_address w3) of
              Inl e \<Rightarrow> (False, fx1 @ [Log (MsgProcessFailed e)])
            | Inr nonce \<Rightarrow>
           (case gas_price w3 of
              Inl e \<Rightarrow> (False, fx1 @ [Log (MsgProcessFailed e)])
            | Inr price \<Rightarrow>
           (let payload = \<lparr>tx_from = relayer_address w3, tx_nonce = nonce,
                           tx_gas = 2000000, tx_gasPrice = price\<rparr>;
                fx2 = fx1 @ [BuildTransaction (mint_call event_data) payload]
            in case build_transaction w3 (mint_call event_data) payload of
                 Inl e \<Rightarrow> (False, fx2 @ [Log (MsgProcessFailed e)])
               | Inr mint_tx \<Rightarrow>
              (let fx3 = fx2 @ [SignTransaction mint_tx key]
               in case sign_transaction w3 mint_tx key of
                    Inl e \<Rightarrow> (False, fx3 @ [Log (MsgProcessFailed e)])
                  | Inr raw \<Rightarrow>
                      (True, fx3 @ [Log MsgSigned, Log MsgSimulation, Log MsgSubmitting,
                                    Sleep 1, Log (MsgSimulatedHash (keccak w3 raw))]))))))"

text \<open>
  The loop of lines 345 and 346; the result of each call is dropped, as the script does.
  \<open>i\<close> counts the calls made so far in this iteration of the main loop.
\<close>

fun process_events :: "(nat \<Rightarrow> dest_client) \<Rightarrow> string \<Rightarrow> nat \<Rightarrow> event list \<Rightarrow> effect list" where
  "process_events d key i [] = []"
| "process_events d key i (e # es) =
     ProcessEventCall e # snd (process_event (d i) key e) @ process_events d key (Suc i) es"

section \<open>BridgeRelayerService\<close>

text \<open>
  Lines 295 to 301: the empty dictionary when the file does not exist, otherwise what
  \<^verbatim>\<open>open\<close> and \<^verbatim>\<open>json.load\<close> return or raise; no handler surrounds them, so
  every exception of theirs leaves \<^verbatim>\<open>load_state\<close> as it is.
\<close>

definition load_state :: "store \<Rightarrow> error + pyval" where
  "load_state f = (case f of Missing \<Rightarrow> Inr (PDict []) | Unreadable e \<Rightarrow> Inl e
                   | Stored v \<Rightarrow> Inr v)"

text \<open>
  Lines 263 and 264 of the constructor; \<^verbatim>\<open>self.state.get\<close> exists only on a dictionary.
  \<^verbatim>\<open>load_state\<close> logs one line when the file exists. The connections that the
  constructor opens afterwards are not modelled.
\<close>

definition init :: "store \<Rightarrow> error + relayer" where
  "init f =
     (case load_state f of
        Inl e \<Rightarrow> Inl e
      | Inr v \<Rightarrow>
          (case v of
             PDict d \<Rightarrow> Inr \<lparr>state = d, last_scanned_block = dict_get d ''last_scanned_block'',
                             state_file = f,
                             trace = (if f = Missing then [] else [Log MsgLoadingState])\<rparr>
           | _ \<Rightarrow> Inl AttributeError))"

text \<open>
  Lines 303 to 308: the cursor is stored in \<^verbatim>\<open>self.state\<close>, which is then written over
  the state file. The write is taken to succeed; the debug line is below the level of
  the logger.
\<close>

definition save_state :: "relayer \<Rightarrow> relayer" where
  "save_state st =
     (let d = dict_set (state st) ''last_scanned_block'' (last_scanned_block st)
      in st\<lparr>state := d, state_file := Stored (PDict d), trace := trace st @ [WriteState d]\<rparr>)"

text \<open>Lines 314 to 320 of \<^verbatim>\<open>run\<close>: where the scan starts.\<close>

definition startup :: "config \<Rightarrow> source_node \<Rightarrow> relayer \<Rightarrow> error + relayer" where
  "startup cfg node st =
     (if \<not> truthy (last_scanned_block st) then
        (case initial_scan_block cfg of
           Latest \<Rightarrow>
             (case block_number node of
                Inl e \<Rightarrow> Inl e
              | Inr h \<Rightarrow> Inr (st\<lparr>last_scanned_block := PInt h,
                                 trace := trace st @ [Log MsgStarting,
                                                      Log (MsgNoPreviousState h)]\<rparr>))
         | Explicit n \<Rightarrow> Inr (st\<lparr>last_scanned_block := PInt n,
                                  trace := trace st @ [Log MsgStarting,
                                                       Log (MsgNoPreviousState n)]\<rparr>))
      else Inr (st\<lparr>trace := trace st @ [Log MsgStarting]\<rparr>))"

text \<open>Lines 326 and 329: the range of one iteration, from the cursor and the head.\<close>

definition block_range :: "config \<Rightarrow> int \<Rightarrow> int \<Rightarrow> int \<times> int" where
  "block_range cfg from_block latest_block =
     (from_block, min latest_block (from_block + max_blocks_per_scan cfg - 1))"

text \<open>
  One iteration of the \<^verbatim>\<open>while True\<close> loop (lines 324 to 351). An exception of the head
  query or of the addition leaves the loop.
\<close>

definition cycle :: "config \<Rightarrow> world \<Rightarrow> relayer \<Rightarrow> error + relayer" where
  "cycle cfg w st =
     (case block_number (source w) of
        Inl e \<Rightarrow> Inl e
      | Inr latest_block \<Rightarrow>
     (case py_add1 (last_scanned_block st) of
        Inl e \<Rightarrow> Inl e
      | Inr from_block \<Rightarrow>
     (let to_block = snd (block_range cfg from_block latest_block)
      in if from_block > to_block then
           Inr (st\<lparr>trace := trace st @ [Log (MsgNoNewBlocks latest_block),
                                        Sleep (polling_interval_seconds cfg)]\<rparr>)
         else
           (let scanned = scan_for_events (source w) from_block to_block (event_to_listen cfg);
                events = fst scanned;
                fx = snd scanned @
                     (if events \<noteq> [] then process_events (dest w) (private_key cfg) 0 events
                      else []);
                st1 = save_state (st\<lparr>last_scanned_block := PInt to_block,
                                      trace := trace st @ fx\<rparr>)
            in Inr (st1\<lparr>trace := trace st1 @ [Sleep (polling_interval_seconds cfg)]\<rparr>)))))"

text \<open>
  The loop over the iterations that complete before a shutdown signal, one world each.
  An exception ends the loop without a save (line 356); the signal, taken to arrive
  between two iterations, saves the state (lines 353 to 355). Both ways out pass the
  last log line (line 359).
\<close>

fun run_loop :: "config \<Rightarrow> world list \<Rightarrow> relayer \<Rightarrow> error option \<times> relayer" where
  "run_loop cfg [] st =
     (let st1 = save_state (st\<lparr>trace := trace st @ [Log MsgShutdownSignal]\<rparr>)
      in (None, st1\<lparr>trace := trace st1 @ [Log MsgStopped]\<rparr>))"
| "run_loop cfg (w # ws) st =
     (case cycle cfg w st of
        Inl e \<Rightarrow> (Some e, st\<lparr>trace := trace st @ [Log (MsgCritical e), Log MsgStopped]\<rparr>)
      | Inr st' \<Rightarrow> run_loop cfg ws st')"

text \<open>
  The start of the service as \<^verbatim>\<open>__main__\<close> runs it: the constructor, then the first
  lines of \<^verbatim>\<open>run\<close>.
\<close>

definition boot :: "config \<Rightarrow> source_node \<Rightarrow> store \<Rightarrow> error + relayer" where
  "boot cfg node f = (case init f of Inl e \<Rightarrow> Inl e | Inr st \<Rightarrow> startup cfg node st)"

section \<open>Reading a trace\<close>

fun scan_of :: "effect \<Rightarrow> (int \<times> int) list" where
  "scan_of (ScanRequest f t n) = [(f, t)]"
| "scan_of _ = []"

fun attempt_of :: "effect \<Rightarrow> event list" where
  "attempt_of (ProcessEventCall e) = [e]"
| "attempt_of _ = []"

fun failure_of :: "effect \<Rightarrow> error list" where
  "failure_of (Log (MsgProcessFailed e)) = [e]"
| "failure_of _ = []"

fun build_of :: "effect \<Rightarrow> contract_call list" where
  "build_of (BuildTransaction c p) = [c]"
| "build_of _ = []"

fun send_of :: "effect \<Rightarrow> bytes list" where
  "send_of (SendRawTransaction raw) = [raw]"
| "send_of _ = []"

fun hash_of :: "effect \<Rightarrow> bytes list" where
  "hash_of (Log (MsgSimulatedHash h)) = [h]"
| "hash_of _ = []"

fun sleep_of :: "effect \<Rightarrow> nat list" where
  "sleep_of (Sleep n) = [n]"
| "sleep_of _ = []"

fun write_of :: "effect \<Rightarrow> pyval list" where
  "write_of (WriteState d) = [dict_get d ''last_scanned_block'']"
| "write_of _ = []"

text \<open>The block ranges requested from the source node, in order.\<close>

definition scans :: "effect list \<Rightarrow> (int \<times> int) list" where
  "scans fx = concat (map scan_of fx)"

text \<open>The events handed to \<^verbatim>\<open>process_event\<close>, in order.\<close>

definition attempts :: "effect list \<Rightarrow> event list" where
  "attempts fx = concat (map attempt_of fx)"

text \<open>The failures that \<^verbatim>\<open>process_event\<close> logged.\<close>

definition failures :: "effect list \<Rightarrow> error list" where
  "failures fx = concat (map failure_of fx)"

text \<open>The contract calls for which a transaction was built.\<close>

definition builds :: "effect list \<Rightarrow> contract_call list" where
  "builds fx = concat (map build_of fx)"

text \<open>The signed transactions sent to the destination network.\<close>

definition sends :: "effect list \<Rightarrow> bytes list" where
  "sends fx = concat (map send_of fx)"

text \<open>The simulated hashes logged.\<close>

definition hashes :: "effect list \<Rightarrow> bytes list" where
  "hashes fx = concat (map hash_of fx)"

definition sleeps :: "effect list \<Rightarrow> nat list" where
  "sleeps fx = concat (map sleep_of fx)"

text \<open>The cursor values written to the state file.\<close>

definition writes :: "effect list \<Rightarrow> pyval list" where
  "writes fx = concat (map write_of fx)"

text \<open>
  Ranges that follow one another without gap or overlap: the first starts right after
  \<open>c\<close>, each next one right after the end of the one before, none is empty, and the last
  ends at \<open>c'\<close>.
\<close>

fun chained :: "int \<Rightarrow> (int \<times> int) list \<Rightarrow> int \<Rightarrow> bool" where
  "chained c [] c' = (c' = c)"
| "chained c ((f, t) # rs) c' = (f = c + 1 \<and> f \<le> t \<and> chained t rs c')"

text \<open>Strictly ascending order of (blockNumber, logIndex).\<close>

definition before :: "event \<Rightarrow> event \<Rightarrow> bool" where
  "before a b = (blockNumber a < blockNumber b \<or>
                 (blockNumber a = blockNumber b \<and> logIndex a < logIndex b))"

definition ascending :: "event list \<Rightarrow> bool" where
  "ascending es = sorted_wrt before es"

text \<open>The matching events of a chain that lie in a block range.\<close>

definition events_in :: "event list \<Rightarrow> int \<Rightarrow> int \<Rightarrow> event list" where
  "events_in chain f t = filter (\<lambda>e. f \<le> blockNumber e \<and> blockNumber e \<le> t) chain"

text \<open>The state file holds the cursor that the service has in memory.\<close>

definition synced :: "relayer \<Rightarrow> bool" where
  "synced st = (state_file st = Stored (PDict (state st)) \<and>
                dict_get (state st) ''last_scanned_block'' = last_scanned_block st)"

text \<open>
  The node of an iteration answered the filter over a range with the matching events of
  the chain in that range.
\<close>

definition answer_ok :: "config \<Rightarrow> event list \<Rightarrow> world \<Rightarrow> int \<times> int \<Rightarrow> bool" where
  "answer_ok cfg chain w r =
     (get_all_entries (source w) (fst r) (snd r) (event_to_listen cfg) =
        Inr (events_in chain (fst r) (snd r)))"

text \<open>
  Every filter that the service made in a run from the state \<open>st\<close> was answered so:
  in each iteration that completes, the ranges requested are read from what the
  iteration added to the trace. Nothing is asked of a node about a range that was not
  requested from it.
\<close>

fun answered :: "config \<Rightarrow> event list \<Rightarrow> world list \<Rightarrow> relayer \<Rightarrow> bool" where
  "answered cfg chain [] st = True"
| "answered cfg chain (w # ws) st =
     (case cycle cfg w st of
        Inl e \<Rightarrow> True
      | Inr st' \<Rightarrow>
          list_all (answer_ok cfg chain w) (scans (drop (length (trace st)) (trace st'))) \<and>
          answered cfg chain ws st')"

text \<open>
  Every matching event of the chain in a block after \<open>c\<close> and up to \<open>c'\<close> was handed
  to \<^verbatim>\<open>process_event\<close>.
\<close>

definition covered :: "event list \<Rightarrow> int \<Rightarrow> int \<Rightarrow> effect list \<Rightarrow> bool" where
  "covered chain c c' fx =
     (\<forall>e\<in>set chain. c < blockNumber e \<and> blockNumber e \<le> c' \<longrightarrow> e \<in> set (attempts fx))"

section \<open>Reading a result\<close>

text \<open>The cursor in memory after a step that may raise.\<close>

definition cursor_of :: "error + relayer \<Rightarrow> error + pyval" where
  "cursor_of r = (case r of Inl e \<Rightarrow> Inl e | Inr st \<Rightarrow> Inr (last_scanned_block st))"

text \<open>The trace after a step (empty when the step raised).\<close>

definition trace_of :: "error + relayer \<Rightarrow> effect list" where
  "trace_of r = (case r of Inl e \<Rightarrow> [] | Inr st \<Rightarrow> trace st)"

text \<open>The cursor that a restart would read from the state file.\<close>

definition persisted :: "relayer \<Rightarrow> error + pyval" where
  "persisted st = cursor_of (init (state_file st))"

section \<open>Concrete runs\<close>

text \<open>
  The configuration of the script (\<^verbatim>\<open>CONFIG\<close>), chains and clients for the scenarios of
  the specification, and the state of a service that resumes from a stored cursor.
\<close>

definition cfg100 :: config where
  "cfg100 = \<lparr>event_to_listen = ''TokensLocked'', private_key = ''0xaa'',
              polling_interval_seconds = 30, max_blocks_per_scan = 100,
              initial_scan_block = Latest\<rparr>"

definition ev550 :: event where
  "ev550 = \<lparr>args = \<lparr>token = ''0xT'', sender = ''0xS'', recipient = ''0xR'', amount = 5,
                      destinationChainId = 137\<rparr>,
             transactionHash = [5, 5, 0], blockNumber = 550, logIndex = 0\<rparr>"

definition ev560 :: event where
  "ev560 = \<lparr>args = \<lparr>token = ''0xT'', sender = ''0xS'', recipient = ''0xQ'', amount = 9,
                      destinationChainId = 137\<rparr>,
             transactionHash = [5, 6, 0], blockNumber = 560, logIndex = 2\<rparr>"

definition ev650 :: event where
  "ev650 = \<lparr>args = \<lparr>token = ''0xT'', sender = ''0xS'', recipient = ''0xR'', amount = 1,
                      destinationChainId = 137\<rparr>,
             transactionHash = [6, 5, 0], blockNumber = 650, logIndex = 0\<rparr>"

definition ev700 :: event where
  "ev700 = \<lparr>args = \<lparr>token = ''0xT'', sender = ''0xS'', recipient = ''0xQ'', amount = 2,
                      destinationChainId = 137\<rparr>,
             transactionHash = [7, 0, 0], blockNumber = 700, logIndex = 1\<rparr>"

text \<open>The matching events of a source chain.\<close>

definition chain3 :: "event list" where
  "chain3 = [ev550, ev560, ev650]"

text \<open>The same chain later, when block 700 has been mined.\<close>

definition chain4 :: "event list" where
  "chain4 = [ev550, ev560, ev650, ev700]"

text \<open>A client whose every operation answers; reversal stands in for the hash function.\<close>

definition ok_client :: dest_client where
  "ok_client = \<lparr>relayer_address = ''0xRelayer'',
                 from_wei = (\<lambda>n. Inr ()),
                 get_transaction_count = (\<lambda>a. Inr 7),
                 gas_price = Inr 20,
                 build_transaction = (\<lambda>c p. case c of MintTokens t r a h \<Rightarrow> Inr (nat a # h)),
                 sign_transaction = (\<lambda>tx k. Inr (1 # tx)),
                 keccak = rev\<rparr>"

text \<open>The same client while the destination node does not answer the fee query.\<close>

definition down_client :: dest_client where
  "down_client = ok_client\<lparr>gas_price := Inl ConnectionError\<rparr>"

text \<open>
  A source node at head \<open>h\<close> of a chain with the given matching events: a filter over a
  range either fails, as \<open>fails\<close> says, or is answered with the events of the range in
  the order of the chain.
\<close>

definition node_of :: "event list \<Rightarrow> int \<Rightarrow> (int \<Rightarrow> int \<Rightarrow> error option) \<Rightarrow> source_node" where
  "node_of chain h fails =
     \<lparr>block_number = Inr h,
      get_all_entries = (\<lambda>f t n. case fails f t of Some e \<Rightarrow> Inl e
                                   | None \<Rightarrow> Inr (events_in chain f t))\<rparr>"

definition serving :: "event list \<Rightarrow> int \<Rightarrow> source_node" where
  "serving chain h = node_of chain h (\<lambda>f t. None)"

definition rejecting :: "event list \<Rightarrow> int \<Rightarrow> source_node" where
  "rejecting chain h = node_of chain h (\<lambda>f t. Some BlockNotFound)"

definition world_idle :: world where
  "world_idle = \<lparr>source = serving chain3 1000, dest = (\<lambda>i. ok_client)\<rparr>"

definition world_backlog :: world where
  "world_backlog = \<lparr>source = serving chain3 650, dest = (\<lambda>i. ok_client)\<rparr>"

definition world_flaky :: world where
  "world_flaky = \<lparr>source = serving chain3 650,
                  dest = (\<lambda>i. if i = 0 then down_client else ok_client)\<rparr>"

definition world_reject :: world where
  "world_reject = \<lparr>source = rejecting chain3 700, dest = (\<lambda>i. ok_client)\<rparr>"

definition world_later :: world where
  "world_later = \<lparr>source = serving chain3 800, dest = (\<lambda>i. ok_client)\<rparr>"

definition world_grown :: world where
  "world_grown = \<lparr>source = serving chain4 800, dest = (\<lambda>i. ok_client)\<rparr>"

text \<open>A chain whose node lists the later event first.\<close>

definition world_unordered :: world where
  "world_unordered = \<lparr>source = serving [ev560, ev550] 650, dest = (\<lambda>i. ok_client)\<rparr>"

text \<open>The service as the constructor leaves it when the state file holds the cursor \<open>c\<close>.\<close>

definition resumed :: "int \<Rightarrow> relayer" where
  "resumed c = \<lparr>state = [(''last_scanned_block'', PInt c)], last_scanned_block = PInt c,
                 state_file = Stored (PDict [(''last_scanned_block'', PInt c)]),
                 trace = [Log MsgLoadingState]\<rparr>"

section \<open>Lemmas\<close>

lemma dict_get_set: "dict_get (dict_set d k v) k = v"
  by (induction d) (auto simp: dict_get_def)

lemma observers_Nil:
  "scans [] = []" "attempts [] = []" "failures [] = []" "builds [] = []"
  "sends [] = []" "hashes [] = []" "sleeps [] = []" "writes [] = []"
  by (simp_all add: scans_def attempts_def failures_def builds_def sends_def hashes_def
      sleeps_def writes_def)

lemma observers_Cons:
  "scans (x # fx) = scan_of x @ scans fx"
  "attempts (x # fx) = attempt_of x @ attempts fx"
  "failures (x # fx) = failure_of x @ failures fx"
  "builds (x # fx) = build_of x @ builds fx"
  "sends (x # fx) = send_of x @ sends fx"
  "hashes (x # fx) = hash_of x @ hashes fx"
  "sleeps (x # fx) = sleep_of x @ sleeps fx"
  "writes (x # fx) = write_of x @ writes fx"
  by (simp_all add: scans_def attempts_def failures_def builds_def sends_def hashes_def
      sleeps_def writes_def)

lemma observers_append:
  "scans (fx @ gx) = scans fx @ scans gx"
  "attempts (fx @ gx) = attempts fx @ attempts gx"
  "failures (fx @ gx) = failures fx @ failures gx"
  "builds (fx @ gx) = builds fx @ builds gx"
  "sends (fx @ gx) = sends fx @ sends gx"
  "hashes (fx @ gx) = hashes fx @ hashes gx"
  "sleeps (fx @ gx) = sleeps fx @ sleeps gx"
  "writes (fx @ gx) = writes fx @ writes gx"
  by (simp_all add: scans_def attempts_def failures_def builds_def sends_def hashes_def
      sleeps_def writes_def)

lemmas observers = observers_Nil observers_Cons observers_append

lemma process_event_quiet:
  "scans (snd (process_event w3 key e)) = []"
  "attempts (snd (process_event w3 key e)) = []"
  "sends (snd (process_event w3 key e)) = []"
  "writes (snd (process_event w3 key e)) = []"
  by (simp_all add: process_event_def Let_def observers split: sum.splits)

lemma process_event_failures:
  "length (failures (snd (process_event w3 key e))) = (if fst (process_event w3 key e) then 0 else 1)"
  by (simp add: process_event_def Let_def observers split: sum.splits)

lemma process_events_quiet:
  "scans (process_events d key i es) = []"
  "sends (process_events d key i es) = []"
  "writes (process_events d key i es) = []"
  by (induction es arbitrary: i; simp add: observers process_event_quiet)+

lemma process_events_attempts: "attempts (process_events d key i es) = es"
  by (induction es arbitrary: i) (simp_all add: observers process_event_quiet)

lemma scan_for_events_fx:
  "scans (snd (scan_for_events node f t n)) = [(f, t)]"
  "attempts (snd (scan_for_events node f t n)) = []"
  "sends (snd (scan_for_events node f t n)) = []"
  "writes (snd (scan_for_events node f t n)) = []"
  "sleeps (snd (scan_for_events node f t n)) = []"
  "failures (snd (scan_for_events node f t n)) = []"
  by (simp_all add: scan_for_events_def Let_def observers split: sum.splits)

lemma scan_for_events_result:
  "fst (scan_for_events node f t n) =
     (case get_all_entries node f t n of Inl e \<Rightarrow> [] | Inr es \<Rightarrow> es)"
  by (simp add: scan_for_events_def Let_def split: sum.splits)

lemma cycle_idle:
  assumes "block_number (source w) = Inr h" and "py_add1 (last_scanned_block st) = Inr f"
    and "min h (f + max_blocks_per_scan cfg - 1) < f"
  shows "cycle cfg w st =
           Inr (st\<lparr>trace := trace st @ [Log (MsgNoNewBlocks h),
                                        Sleep (polling_interval_seconds cfg)]\<rparr>)"
  using assms by (simp add: cycle_def block_range_def)

lemma cycle_scan:
  assumes "block_number (source w) = Inr h" and "py_add1 (last_scanned_block st) = Inr f"
    and "t = min h (f + max_blocks_per_scan cfg - 1)" and "f \<le> t"
  shows "cycle cfg w st =
           Inr \<lparr>state = dict_set (state st) ''last_scanned_block'' (PInt t),
                last_scanned_block = PInt t,
                state_file = Stored (PDict (dict_set (state st) ''last_scanned_block'' (PInt t))),
                trace = trace st @ snd (scan_for_events (source w) f t (event_to_listen cfg)) @
                        process_events (dest w) (private_key cfg) 0
                          (fst (scan_for_events (source w) f t (event_to_listen cfg))) @
                        [WriteState (dict_set (state st) ''last_scanned_block'' (PInt t)),
                         Sleep (polling_interval_seconds cfg)]\<rparr>"
proof -
  have no: "(t < f) = False"
    using assms(4) by arith
  have rng: "block_range cfg f h = (f, t)"
    by (simp add: block_range_def assms(3))
  show ?thesis
    by (simp add: cycle_def assms(1) assms(2) rng no save_state_def Let_def)
qed

lemma scan_cycle_observed:
  fixes w cfg f t st
  defines "fx \<equiv> snd (scan_for_events (source w) f t (event_to_listen cfg)) @
                 process_events (dest w) (private_key cfg) 0
                   (fst (scan_for_events (source w) f t (event_to_listen cfg))) @
                 [WriteState (dict_set (state st) ''last_scanned_block'' (PInt t)),
                  Sleep (polling_interval_seconds cfg)]"
  shows "scans fx = [(f, t)]"
    and "attempts fx = fst (scan_for_events (source w) f t (event_to_listen cfg))"
    and "sends fx = []"
    and "writes fx = [PInt t]"
  unfolding fx_def
  by (simp_all add: observers scan_for_events_fx process_events_quiet process_events_attempts
      dict_get_set)

lemma scan_cycle_synced:
  assumes "block_number (source w) = Inr h" and "py_add1 (last_scanned_block st) = Inr f"
    and "t = min h (f + max_blocks_per_scan cfg - 1)" and "f \<le> t"
  shows "\<exists>st'. cycle cfg w st = Inr st' \<and> last_scanned_block st' = PInt t \<and> synced st' \<and>
           trace st' = trace st @ snd (scan_for_events (source w) f t (event_to_listen cfg)) @
                        process_events (dest w) (private_key cfg) 0
                          (fst (scan_for_events (source w) f t (event_to_listen cfg))) @
                        [WriteState (dict_set (state st) ''last_scanned_block'' (PInt t)),
                         Sleep (polling_interval_seconds cfg)]"
  by (simp add: cycle_scan [OF assms] synced_def dict_get_set)

lemma process_events_failures:
  "length (failures (process_events d key i es)) =
     length (filter (\<lambda>j. \<not> fst (process_event (d (i + j)) key (es ! j))) [0..<length es])"
proof (induction es arbitrary: i)
  case Nil
  show ?case by (simp add: observers)
next
  case (Cons e es)
  have "[0..<length (e # es)] = 0 # map Suc [0..<length es]"
    by (simp add: upt_conv_Cons map_Suc_upt del: upt_Suc)
  then show ?case
    by (simp add: observers process_event_failures Cons.IH [of "Suc i"] filter_map o_def
        del: upt_Suc)
qed

lemma scan_cycle_answered:
  assumes "block_number (source w) = Inr headBlock"
    and "last_scanned_block st = PInt lastScannedBlock"
    and "to_block = min headBlock (lastScannedBlock + 1 + max_blocks_per_scan cfg - 1)"
    and "lastScannedBlock + 1 \<le> to_block"
    and "get_all_entries (source w) (lastScannedBlock + 1) to_block (event_to_listen cfg) = Inr es"
  shows "\<exists>st' sx. cycle cfg w st = Inr st' \<and> last_scanned_block st' = PInt to_block \<and>
           synced st' \<and> scans sx = [(lastScannedBlock + 1, to_block)] \<and>
           attempts sx = [] \<and> failures sx = [] \<and>
           trace st' = trace st @ sx @ process_events (dest w) (private_key cfg) 0 es @
             [WriteState (dict_set (state st) ''last_scanned_block'' (PInt to_block)),
              Sleep (polling_interval_seconds cfg)]"
proof -
  have add: "py_add1 (last_scanned_block st) = Inr (lastScannedBlock + 1)"
    by (simp add: assms(2))
  have es: "fst (scan_for_events (source w) (lastScannedBlock + 1) to_block (event_to_listen cfg)) = es"
    by (simp add: scan_for_events_result assms(5))
  from scan_cycle_synced [OF assms(1) add assms(3) assms(4)] es
  show ?thesis
    by (auto simp: scan_for_events_fx)
qed

lemma dict_get_empty: "dict_get [] k = PNone"
  by (simp add: dict_get_def)

lemma cycle_cases:
  assumes "last_scanned_block st = PInt c0"
  obtains (raised) e where "cycle cfg w st = Inl e"
  | (idle) fx where "cycle cfg w st = Inr (st\<lparr>trace := trace st @ fx\<rparr>)"
      and "scans fx = []" and "attempts fx = []"
  | (scanned) st1 fx t where "cycle cfg w st = Inr st1" and "trace st1 = trace st @ fx"
      and "last_scanned_block st1 = PInt t" and "c0 + 1 \<le> t" and "scans fx = [(c0 + 1, t)]"
      and "attempts fx = fst (scan_for_events (source w) (c0 + 1) t (event_to_listen cfg))"
      and "synced st1"
proof (cases "block_number (source w)")
  case (Inl e)
  then have "cycle cfg w st = Inl e"
    by (simp add: cycle_def)
  then show ?thesis by (rule raised)
next
  case (Inr h)
  have add: "py_add1 (last_scanned_block st) = Inr (c0 + 1)"
    by (simp add: assms)
  define t where "t = min h (c0 + 1 + max_blocks_per_scan cfg - 1)"
  show ?thesis
  proof (cases "t < c0 + 1")
    case True
    then have "min h (c0 + 1 + max_blocks_per_scan cfg - 1) < c0 + 1"
      by (simp only: t_def)
    from cycle_idle [OF Inr add this] show ?thesis
      by (rule idle) (simp_all add: observers)
  next
    case False
    then have le: "c0 + 1 \<le> t" by simp
    from scan_cycle_synced [OF Inr add t_def le]
    obtain st1 where st1: "cycle cfg w st = Inr st1" "last_scanned_block st1 = PInt t"
      "synced st1"
      "trace st1 = trace st @ snd (scan_for_events (source w) (c0 + 1) t (event_to_listen cfg)) @
         process_events (dest w) (private_key cfg) 0
           (fst (scan_for_events (source w) (c0 + 1) t (event_to_listen cfg))) @
         [WriteState (dict_set (state st) ''last_scanned_block'' (PInt t)),
          Sleep (polling_interval_seconds cfg)]"
      by blast
    note obs = scan_cycle_observed [of w "c0 + 1" t cfg st]
    from st1(1) st1(4) st1(2) le obs(1) obs(2) st1(3) show ?thesis
      by (rule scanned)
  qed
qed

lemma synced_trace: "synced (st\<lparr>trace := x\<rparr>) = synced st"
  by (simp add: synced_def)

lemma synced_save_state: "synced (save_state st)"
  by (simp add: synced_def save_state_def Let_def dict_get_set)

lemma answered_step:
  assumes "cycle cfg w st = Inr st'" and "trace st' = trace st @ fx"
  shows "answered cfg chain (w # ws) st =
           (list_all (answer_ok cfg chain w) (scans fx) \<and> answered cfg chain ws st')"
  by (simp add: assms)

lemma covered_none: "covered chain c c fx"
  by (auto simp: covered_def)

lemma covered_idle: "covered chain c c' fx' \<Longrightarrow> covered chain c c' (fx @ fx')"
  by (auto simp: covered_def observers)

lemma covered_scanned:
  assumes "attempts fx = events_in chain (c + 1) t" and "covered chain t c' fx'"
  shows "covered chain c c' (fx @ fx')"
  unfolding covered_def
proof (intro ballI impI)
  fix e
  assume e: "e \<in> set chain" "c < blockNumber e \<and> blockNumber e \<le> c'"
  show "e \<in> set (attempts (fx @ fx'))"
  proof (cases "blockNumber e \<le> t")
    case True
    with e have "e \<in> set (events_in chain (c + 1) t)"
      by (simp add: events_in_def)
    then show ?thesis
      by (simp add: observers assms(1))
  next
    case False
    with e assms(2) have "e \<in> set (attempts fx')"
      by (simp add: covered_def)
    then show ?thesis
      by (simp add: observers)
  qed
qed

lemma run_loop_invariant:
  assumes "last_scanned_block st = PInt c0"
  shows "\<exists>c fx. trace (snd (run_loop cfg ws st)) = trace st @ fx \<and>
           last_scanned_block (snd (run_loop cfg ws st)) = PInt c \<and>
           chained c0 (scans fx) c \<and>
           (synced st \<or> scans fx \<noteq> [] \<or> fst (run_loop cfg ws st) = None
              \<longrightarrow> synced (snd (run_loop cfg ws st))) \<and>
           (answered cfg chain ws st \<longrightarrow> covered chain c0 c fx)"
  using assms
proof (induction ws arbitrary: st c0)
  case Nil
  define fx where "fx = [Log MsgShutdownSignal,
    WriteState (dict_set (state st) ''last_scanned_block'' (last_scanned_block st)),
    Log MsgStopped]"
  have "trace (snd (run_loop cfg [] st)) = trace st @ fx"
    by (simp add: save_state_def Let_def fx_def)
  moreover have "last_scanned_block (snd (run_loop cfg [] st)) = PInt c0"
    by (simp add: save_state_def Let_def Nil)
  moreover have "synced (snd (run_loop cfg [] st))"
    by (simp add: Let_def synced_trace synced_save_state)
  moreover have "scans fx = []"
    by (simp add: observers fx_def)
  ultimately show ?case
    by (intro exI [of _ c0] exI [of _ fx]) (simp add: covered_none)
next
  case (Cons w ws)
  from Cons.prems show ?case
  proof (cases rule: cycle_cases [where cfg = cfg and w = w])
    case (raised e)
    then have r: "run_loop cfg (w # ws) st =
        (Some e, st\<lparr>trace := trace st @ [Log (MsgCritical e), Log MsgStopped]\<rparr>)"
      by simp
    show ?thesis
      unfolding r
      by (intro exI [of _ c0] exI [of _ "[Log (MsgCritical e), Log MsgStopped]"])
         (simp add: observers synced_trace Cons.prems covered_none)
  next
    case (idle fx)
    then have r: "run_loop cfg (w # ws) st = run_loop cfg ws (st\<lparr>trace := trace st @ fx\<rparr>)"
      by simp
    have c: "last_scanned_block (st\<lparr>trace := trace st @ fx\<rparr>) = PInt c0"
      by (simp add: Cons.prems)
    from Cons.IH [OF c] obtain c' fx' where
      ih: "trace (snd (run_loop cfg ws (st\<lparr>trace := trace st @ fx\<rparr>))) =
             trace (st\<lparr>trace := trace st @ fx\<rparr>) @ fx'"
        "last_scanned_block (snd (run_loop cfg ws (st\<lparr>trace := trace st @ fx\<rparr>))) = PInt c'"
        "chained c0 (scans fx') c'"
        "synced (st\<lparr>trace := trace st @ fx\<rparr>) \<or> scans fx' \<noteq> [] \<or>
           fst (run_loop cfg ws (st\<lparr>trace := trace st @ fx\<rparr>)) = None
           \<longrightarrow> synced (snd (run_loop cfg ws (st\<lparr>trace := trace st @ fx\<rparr>)))"
        "answered cfg chain ws (st\<lparr>trace := trace st @ fx\<rparr>) \<longrightarrow> covered chain c0 c' fx'"
      by (elim exE conjE) (rule that)
    have step: "answered cfg chain (w # ws) st =
                  answered cfg chain ws (st\<lparr>trace := trace st @ fx\<rparr>)"
      using answered_step [OF idle(1), of fx chain ws] idle(2) by simp
    show ?thesis
      unfolding r step
      by (intro exI [of _ c'] exI [of _ "fx @ fx'"])
         (use ih idle(2) in \<open>simp add: observers synced_trace covered_idle\<close>)
  next
    case (scanned st1 fx t)
    then have r: "run_loop cfg (w # ws) st = run_loop cfg ws st1"
      by simp
    from Cons.IH [OF scanned(3)] obtain c' fx' where
      ih: "trace (snd (run_loop cfg ws st1)) = trace st1 @ fx'"
        "last_scanned_block (snd (run_loop cfg ws st1)) = PInt c'"
        "chained t (scans fx') c'"
        "synced st1 \<or> scans fx' \<noteq> [] \<or> fst (run_loop cfg ws st1) = None
           \<longrightarrow> synced (snd (run_loop cfg ws st1))"
        "answered cfg chain ws st1 \<longrightarrow> covered chain t c' fx'"
      by (elim exE conjE) (rule that)
    have step: "answered cfg chain (w # ws) st =
                  (answer_ok cfg chain w (c0 + 1, t) \<and> answered cfg chain ws st1)"
      using answered_step [OF scanned(1) scanned(2), of chain ws] scanned(5) by simp
    have cover: "covered chain c0 c' (fx @ fx')" if "answered cfg chain (w # ws) st"
    proof -
      from that have ok: "answer_ok cfg chain w (c0 + 1, t)"
        and rest: "answered cfg chain ws st1"
        unfolding step by simp_all
      from ok have "attempts fx = events_in chain (c0 + 1) t"
        by (simp add: answer_ok_def scanned(6) scan_for_events_result)
      moreover from rest ih(5) have "covered chain t c' fx'"
        by simp
      ultimately show ?thesis
        by (rule covered_scanned)
    qed
    show ?thesis
      unfolding r
      by (intro exI [of _ c'] exI [of _ "fx @ fx'"])
         (use ih scanned(2,4,5,7) cover in \<open>simp add: observers\<close>)
  qed
qed

text \<open>Every definition of the model and of the concrete runs, for evaluation.\<close>

lemmas run_defs = cycle_def block_range_def scan_for_events_def process_event_def
  mint_call_def save_state_def load_state_def init_def startup_def boot_def
  cursor_of_def trace_of_def persisted_def events_in_def dict_get_def
  node_of_def serving_def rejecting_def resumed_def cfg100_def chain3_def
  ev550_def ev560_def ev650_def ev700_def chain4_def ok_client_def down_client_def
  world_idle_def world_backlog_def world_flaky_def world_reject_def world_later_def
  world_grown_def world_unordered_def answer_ok_def

text \<open>The constructor on a state file that holds an integer cursor.\<close>

lemma init_resumed: "init (Stored (PDict [(''last_scanned_block'', PInt c)])) = Inr (resumed c)"
  by (simp add: init_def load_state_def resumed_def dict_get_def)

section \<open>Coverage of the scanned blocks (C1)\<close>

text \<open>
  C1, as amended. Let the service run any number of iterations from the cursor
  \<open>initialBlock\<close>, until the shutdown signal or an exception. The block ranges it
  requested follow one another without gap or overlap, from \<open>initialBlock + 1\<close> to the
  cursor \<open>lastScannedBlock\<close> it ends with, and after a scan or a shutdown by signal the
  state file holds that cursor. If every filter that the service made in the run was
  answered with the matching events of the requested range, every matching event in the
  blocks after \<open>initialBlock\<close> and up to \<open>lastScannedBlock\<close> was handed to
  \<^verbatim>\<open>process_event\<close>. Nothing is said of the events of a range whose filter failed:
  the cursor passes such a range all the same.
\<close>

theorem scanned_ranges_chain_and_cover:
  assumes "last_scanned_block st = PInt initialBlock"
    and "run_loop cfg ws st = (r, st')"
  shows "\<exists>lastScannedBlock fx.
           trace st' = trace st @ fx \<and>
           last_scanned_block st' = PInt lastScannedBlock \<and>
           chained initialBlock (scans fx) lastScannedBlock \<and>
           (scans fx \<noteq> [] \<or> r = None \<longrightarrow> persisted st' = Inr (PInt lastScannedBlock)) \<and>
           (answered cfg chain ws st \<longrightarrow> covered chain initialBlock lastScannedBlock fx)"
proof -
  from run_loop_invariant [OF assms(1), of cfg ws chain, unfolded assms(2) fst_conv snd_conv]
  obtain c fx where inv: "trace st' = trace st @ fx" "last_scanned_block st' = PInt c"
    "chained initialBlock (scans fx) c"
    "synced st \<or> scans fx \<noteq> [] \<or> r = None \<longrightarrow> synced st'"
    "answered cfg chain ws st \<longrightarrow> covered chain initialBlock c fx"
    by (elim exE conjE) (rule that)
  have "persisted st' = Inr (PInt c)" if "synced st'"
    using that inv(2) by (simp add: synced_def persisted_def init_def load_state_def cursor_of_def)
  with inv show ?thesis
    by blast
qed

text \<open>
  Two iterations from cursor 500, with heads 650 and 800 and a limit of 100 blocks. The
  node of the first iteration knows the chain up to block 650 only; block 700 and its
  event are mined before the second. The ranges are [501, 600] and [601, 700], both
  answered, and the four events are handed over.
\<close>

theorem scanned_ranges_chain_and_cover_witness:
  "answered cfg100 chain4 [world_backlog, world_grown] (resumed 500) \<and>
   scans (trace (snd (run_loop cfg100 [world_backlog, world_grown] (resumed 500)))) =
     [(501, 600), (601, 700)] \<and>
   chained 500 [(501, 600), (601, 700)] 700 \<and>
   persisted (snd (run_loop cfg100 [world_backlog, world_grown] (resumed 500))) = Inr (PInt 700) \<and>
   attempts (trace (snd (run_loop cfg100 [world_backlog, world_grown] (resumed 500)))) =
     [ev550, ev560, ev650, ev700] \<and>
   covered chain4 500 700
     (drop 1 (trace (snd (run_loop cfg100 [world_backlog, world_grown] (resumed 500)))))"
  using scanned_ranges_chain_and_cover
    [of "resumed 500" 500 cfg100 "[world_backlog, world_grown]" None
        "snd (run_loop cfg100 [world_backlog, world_grown] (resumed 500))" chain4]
  by (simp add: run_defs observers Let_def covered_def)

text \<open>
  The claim as stated fails where the node rejects a filter. From cursor 600 with head 700
  the node rejects the range [601, 700], which holds the event of block 650: the state
  file ends with cursor 700, and no event was handed over.
\<close>

theorem rejected_range_events_lost:
  "get_all_entries (source world_reject) 601 700 (event_to_listen cfg100) = Inl BlockNotFound \<and>
   persisted (snd (run_loop cfg100 [world_reject] (resumed 600))) = Inr (PInt 700) \<and>
   ev650 \<in> set chain3 \<and> blockNumber ev650 = 650 \<and>
   attempts (trace (snd (run_loop cfg100 [world_reject] (resumed 600)))) = []"
  by (simp add: run_defs observers Let_def)

section \<open>A rejected range (C2)\<close>

text \<open>
  C2, as amended. In a cycle whose filter over the range \<open>[lastScannedBlock + 1, to_block]\<close>
  the node rejects, \<^verbatim>\<open>scan_for_events\<close> yields no event and no event is handed to
  \<^verbatim>\<open>process_event\<close>; the cycle completes all the same, moves the cursor to \<open>to_block\<close>
  and writes it to the state file, so that the next cycle starts at \<open>to_block + 1\<close> and
  the rejected range is not requested again.
\<close>

theorem rejected_range_is_passed_over:
  assumes "block_number (source w) = Inr headBlock"
    and "last_scanned_block st = PInt lastScannedBlock"
    and "to_block = min headBlock (lastScannedBlock + 1 + max_blocks_per_scan cfg - 1)"
    and "lastScannedBlock + 1 \<le> to_block"
    and "get_all_entries (source w) (lastScannedBlock + 1) to_block (event_to_listen cfg) = Inl e"
  shows "fst (scan_for_events (source w) (lastScannedBlock + 1) to_block (event_to_listen cfg)) = [] \<and>
         (\<exists>st' fx. cycle cfg w st = Inr st' \<and> trace st' = trace st @ fx \<and>
            scans fx = [(lastScannedBlock + 1, to_block)] \<and> attempts fx = [] \<and>
            last_scanned_block st' = PInt to_block \<and> synced st' \<and>
            py_add1 (last_scanned_block st') = Inr (to_block + 1))"
proof -
  have add: "py_add1 (last_scanned_block st) = Inr (lastScannedBlock + 1)"
    by (simp add: assms(2))
  have empty: "fst (scan_for_events (source w) (lastScannedBlock + 1) to_block (event_to_listen cfg)) = []"
    by (simp add: scan_for_events_result assms(5))
  from scan_cycle_synced [OF assms(1) add assms(3) assms(4)]
  obtain st' where st': "cycle cfg w st = Inr st'" "last_scanned_block st' = PInt to_block"
    "synced st'"
    "trace st' = trace st @
       snd (scan_for_events (source w) (lastScannedBlock + 1) to_block (event_to_listen cfg)) @
       process_events (dest w) (private_key cfg) 0
         (fst (scan_for_events (source w) (lastScannedBlock + 1) to_block (event_to_listen cfg))) @
       [WriteState (dict_set (state st) ''last_scanned_block'' (PInt to_block)),
        Sleep (polling_interval_seconds cfg)]"
    by blast
  note obs = scan_cycle_observed [of w "lastScannedBlock + 1" to_block cfg st]
  have "scans (snd (scan_for_events (source w) (lastScannedBlock + 1) to_block (event_to_listen cfg)) @
       process_events (dest w) (private_key cfg) 0
         (fst (scan_for_events (source w) (lastScannedBlock + 1) to_block (event_to_listen cfg))) @
       [WriteState (dict_set (state st) ''last_scanned_block'' (PInt to_block)),
        Sleep (polling_interval_seconds cfg)]) = [(lastScannedBlock + 1, to_block)]"
    by (rule obs(1))
  moreover have "attempts (snd (scan_for_events (source w) (lastScannedBlock + 1) to_block (event_to_listen cfg)) @
       process_events (dest w) (private_key cfg) 0
         (fst (scan_for_events (source w) (lastScannedBlock + 1) to_block (event_to_listen cfg))) @
       [WriteState (dict_set (state st) ''last_scanned_block'' (PInt to_block)),
        Sleep (polling_interval_seconds cfg)]) = []"
    using obs(2) empty by simp
  ultimately show ?thesis
    using st' empty by simp
qed

theorem rejected_range_is_passed_over_witness:
  "get_all_entries (source world_reject) 601 700 (event_to_listen cfg100) = Inl BlockNotFound \<and>
   cursor_of (cycle cfg100 world_reject (resumed 600)) = Inr (PInt 700) \<and>
   attempts (trace_of (cycle cfg100 world_reject (resumed 600))) = []"
  using rejected_range_is_passed_over [of world_reject 700 "resumed 600" 600 700 cfg100 BlockNotFound]
  by (simp add: run_defs observers Let_def)

text \<open>
  The claim as stated fails in the scenario of the specification: the node rejects
  [601, 700] at cursor 600, the cursor becomes 700, and the next iteration (head 800)
  requests [701, 800], not [601, 700] again.
\<close>

theorem rejected_range_not_retried:
  "get_all_entries (source world_reject) 601 700 (event_to_listen cfg100) = Inl BlockNotFound \<and>
   cursor_of (cycle cfg100 world_reject (resumed 600)) = Inr (PInt 700) \<and>
   scans (trace (snd (run_loop cfg100 [world_reject, world_later] (resumed 600)))) =
     [(601, 700), (701, 800)]"
  by (simp add: run_defs observers Let_def)

section \<open>The range of a cycle (C3)\<close>

text \<open>
  C3. In a cycle with cursor \<open>lastScannedBlock\<close> and observed head \<open>headBlock\<close> the
  range is \<open>from = lastScannedBlock + 1\<close>, \<open>to = min headBlock (from + max_blocks_per_scan - 1)\<close>,
  so \<open>to - from + 1 \<le> max_blocks_per_scan\<close>. When \<open>from > to\<close> the cycle leaves the
  state as it is but for the trace, to which it adds no scan, no call of
  \<^verbatim>\<open>process_event\<close> and no write of the state file, and one sleep of the polling
  interval. Otherwise it requests exactly the range \<open>[from, to]\<close> and moves the cursor
  to \<open>to\<close>.
\<close>

theorem cycle_range_chunk_bound_idle:
  assumes "block_number (source w) = Inr headBlock"
    and "last_scanned_block st = PInt lastScannedBlock"
  shows "\<exists>from_block to_block.
           from_block = lastScannedBlock + 1 \<and>
           to_block = min headBlock (from_block + max_blocks_per_scan cfg - 1) \<and>
           block_range cfg from_block headBlock = (from_block, to_block) \<and>
           to_block - from_block + 1 \<le> max_blocks_per_scan cfg \<and>
           (if from_block > to_block
            then \<exists>fx. cycle cfg w st = Inr (st\<lparr>trace := trace st @ fx\<rparr>) \<and>
                   scans fx = [] \<and> attempts fx = [] \<and> writes fx = [] \<and>
                   sleeps fx = [polling_interval_seconds cfg]
            else \<exists>st' fx. cycle cfg w st = Inr st' \<and> trace st' = trace st @ fx \<and>
                   scans fx = [(from_block, to_block)] \<and>
                   last_scanned_block st' = PInt to_block)"
proof -
  define f where "f = lastScannedBlock + 1"
  define t where "t = min headBlock (f + max_blocks_per_scan cfg - 1)"
  have add: "py_add1 (last_scanned_block st) = Inr f"
    by (simp add: assms(2) f_def)
  have bound: "t - f + 1 \<le> max_blocks_per_scan cfg"
    by (simp add: t_def)
  have rng: "block_range cfg f headBlock = (f, t)"
    by (simp add: block_range_def t_def)
  have "if f > t
        then \<exists>fx. cycle cfg w st = Inr (st\<lparr>trace := trace st @ fx\<rparr>) \<and>
               scans fx = [] \<and> attempts fx = [] \<and> writes fx = [] \<and>
               sleeps fx = [polling_interval_seconds cfg]
        else \<exists>st' fx. cycle cfg w st = Inr st' \<and> trace st' = trace st @ fx \<and>
               scans fx = [(f, t)] \<and> last_scanned_block st' = PInt t"
  proof (cases "t < f")
    case True
    have "cycle cfg w st =
            Inr (st\<lparr>trace := trace st @ [Log (MsgNoNewBlocks headBlock),
                                         Sleep (polling_interval_seconds cfg)]\<rparr>)"
      using cycle_idle [OF assms(1) add] True by (simp add: t_def)
    moreover have "scans [Log (MsgNoNewBlocks headBlock), Sleep (polling_interval_seconds cfg)] = []"
      and "attempts [Log (MsgNoNewBlocks headBlock), Sleep (polling_interval_seconds cfg)] = []"
      and "writes [Log (MsgNoNewBlocks headBlock), Sleep (polling_interval_seconds cfg)] = []"
      and "sleeps [Log (MsgNoNewBlocks headBlock), Sleep (polling_interval_seconds cfg)] =
             [polling_interval_seconds cfg]"
      by (simp_all add: observers)
    ultimately show ?thesis
      using True by auto
  next
    case False
    then have le: "f \<le> t" by simp
    note eq = cycle_scan [OF assms(1) add t_def le]
    note obs = scan_cycle_observed [of w f t cfg st]
    from False show ?thesis
      by (auto simp: eq obs(1))
  qed
  with bound rng show ?thesis
    unfolding f_def t_def by blast
qed

theorem cycle_range_chunk_bound_idle_witness:
  "cycle cfg100 world_idle (resumed 1000) =
     Inr ((resumed 1000)\<lparr>trace := trace (resumed 1000) @
                                     [Log (MsgNoNewBlocks 1000), Sleep 30]\<rparr>) \<and>
   block_range cfg100 501 650 = (501, 600) \<and>
   scans (trace_of (cycle cfg100 world_backlog (resumed 500))) = [(501, 600)]"
  using cycle_range_chunk_bound_idle [of world_idle 1000 "resumed 1000" 1000 cfg100]
    cycle_range_chunk_bound_idle [of world_backlog 650 "resumed 500" 500 cfg100]
  by (simp add: run_defs observers Let_def)

section \<open>From an event to the mint call (C4)\<close>

text \<open>
  C4, as amended. The call made from a decoded event is \<^verbatim>\<open>mintTokens\<close> with the token,
  the recipient and the amount of the event and, as fourth argument, the hash of the
  source transaction; two events give the same call exactly when they agree on these
  four fields. In \<^verbatim>\<open>process_event\<close> the call is made after the unit conversion of the
  log line and the queries for the nonce and the gas price. When one of these raises, no
  call is made and the processing fails. When they answer, exactly this one call is
  handed to \<^verbatim>\<open>build_transaction\<close> of the destination client, with the nonce and the
  price found, and the processing succeeds exactly when that transaction is built and
  signed.
\<close>

theorem mint_call_built_when_lookups_answer:
  "mint_call e = MintTokens (token (args e)) (recipient (args e)) (amount (args e))
                   (transactionHash e) \<and>
   (mint_call e = mint_call e') =
     (token (args e) = token (args e') \<and> recipient (args e) = recipient (args e') \<and>
      amount (args e) = amount (args e') \<and> transactionHash e = transactionHash e') \<and>
   (if isl (from_wei w3 (amount (args e))) \<or>
       isl (get_transaction_count w3 (relayer_address w3)) \<or> isl (gas_price w3)
    then builds (snd (process_event w3 key e)) = [] \<and> \<not> fst (process_event w3 key e)
    else builds (snd (process_event w3 key e)) = [mint_call e] \<and>
         (\<exists>nonce price.
            get_transaction_count w3 (relayer_address w3) = Inr nonce \<and>
            gas_price w3 = Inr price \<and>
            fst (process_event w3 key e) =
              (\<exists>tx raw. build_transaction w3 (mint_call e)
                           \<lparr>tx_from = relayer_address w3, tx_nonce = nonce,
                            tx_gas = 2000000, tx_gasPrice = price\<rparr> = Inr tx \<and>
                         sign_transaction w3 tx key = Inr raw)))"
  by (simp add: process_event_def mint_call_def Let_def observers split: sum.splits)

theorem mint_call_built_when_lookups_answer_witness:
  "mint_call ev550 = MintTokens ''0xT'' ''0xR'' 5 [5, 5, 0] \<and>
   mint_call ev550 \<noteq> mint_call ev650 \<and>
   builds (snd (process_event ok_client ''0xaa'' ev550)) = [MintTokens ''0xT'' ''0xR'' 5 [5, 5, 0]] \<and>
   build_transaction ok_client (mint_call ev550)
     \<lparr>tx_from = ''0xRelayer'', tx_nonce = 7, tx_gas = 2000000, tx_gasPrice = 20\<rparr> =
     Inr [5, 5, 5, 0] \<and>
   fst (process_event ok_client ''0xaa'' ev550)"
  using mint_call_built_when_lookups_answer [of ev550 ev650 ok_client "''0xaa''"]
  by (simp add: run_defs observers Let_def)

text \<open>
  The claim as stated fails where a query before the call raises: with the destination
  node down at the gas price query, the event of block 550 is processed without any mint
  call, and the processing fails.
\<close>

theorem no_mint_call_when_lookup_fails:
  "gas_price down_client = Inl ConnectionError \<and>
   builds (snd (process_event down_client ''0xaa'' ev550)) = [] \<and>
   process_event down_client ''0xaa'' ev550 =
     (False,
      [Log (MsgProcessing [5, 5, 0]), Log (MsgPreparing 5 ''0xT'' ''0xR''),
       Log (MsgProcessFailed ConnectionError)])"
  by (simp add: run_defs observers Let_def)

section \<open>The order of the events of a scan (C5)\<close>

text \<open>
  C5, as amended. The events that the node returns for the range of a cycle are what
  \<^verbatim>\<open>scan_for_events\<close> returns, and they are handed to \<^verbatim>\<open>process_event\<close> one after
  the other in exactly the order of the node's answer; the script does not sort them.
  They are therefore processed in strictly ascending order of (blockNumber, logIndex)
  whenever the node's answer is in that order.
\<close>

theorem events_processed_in_returned_order:
  assumes "block_number (source w) = Inr headBlock"
    and "last_scanned_block st = PInt lastScannedBlock"
    and "to_block = min headBlock (lastScannedBlock + 1 + max_blocks_per_scan cfg - 1)"
    and "lastScannedBlock + 1 \<le> to_block"
    and "get_all_entries (source w) (lastScannedBlock + 1) to_block (event_to_listen cfg) = Inr es"
  shows "fst (scan_for_events (source w) (lastScannedBlock + 1) to_block (event_to_listen cfg)) = es \<and>
         (\<exists>st' fx. cycle cfg w st = Inr st' \<and> trace st' = trace st @ fx \<and>
            attempts fx = es \<and> (ascending es \<longrightarrow> ascending (attempts fx)))"
proof -
  have es: "fst (scan_for_events (source w) (lastScannedBlock + 1) to_block (event_to_listen cfg)) = es"
    by (simp add: scan_for_events_result assms(5))
  from scan_cycle_answered [OF assms]
  obtain st' sx where st': "cycle cfg w st = Inr st'" "attempts sx = []"
    "trace st' = trace st @ sx @ process_events (dest w) (private_key cfg) 0 es @
       [WriteState (dict_set (state st) ''last_scanned_block'' (PInt to_block)),
        Sleep (polling_interval_seconds cfg)]"
    by blast
  have "attempts (sx @ process_events (dest w) (private_key cfg) 0 es @
       [WriteState (dict_set (state st) ''last_scanned_block'' (PInt to_block)),
        Sleep (polling_interval_seconds cfg)]) = es"
    by (simp add: observers st'(2) process_events_attempts)
  with st' es show ?thesis
    by auto
qed

theorem events_processed_in_returned_order_witness:
  "get_all_entries (source world_backlog) 501 600 (event_to_listen cfg100) = Inr [ev550, ev560] \<and>
   ascending [ev550, ev560] \<and>
   attempts (trace_of (cycle cfg100 world_backlog (resumed 500))) = [ev550, ev560]"
  using events_processed_in_returned_order
    [of world_backlog 650 "resumed 500" 500 600 cfg100 "[ev550, ev560]"]
  by (simp add: run_defs observers Let_def ascending_def before_def)

text \<open>
  The claim as stated fails for a node that lists a later event first: the event of
  block 560 is processed before the event of block 550.
\<close>

theorem unordered_answer_processed_unordered:
  "get_all_entries (source world_unordered) 501 600 (event_to_listen cfg100) = Inr [ev560, ev550] \<and>
   attempts (trace_of (cycle cfg100 world_unordered (resumed 500))) = [ev560, ev550] \<and>
   \<not> ascending (attempts (trace_of (cycle cfg100 world_unordered (resumed 500))))"
  by (simp add: run_defs observers Let_def ascending_def before_def)

section \<open>One attempt for each event of a batch (C6)\<close>

text \<open>
  C6. In a cycle whose scan returns the events \<open>es\<close>, \<^verbatim>\<open>process_event\<close> is called once
  on each of them, in order, whatever the outcome of the calls before; each call that
  fails logs one failure (the number of failures logged is the number of failing calls);
  and the cycle completes, moves the cursor to the end of the range and writes it to the
  state file.
\<close>

theorem batch_failures_isolated:
  assumes "block_number (source w) = Inr headBlock"
    and "last_scanned_block st = PInt lastScannedBlock"
    and "to_block = min headBlock (lastScannedBlock + 1 + max_blocks_per_scan cfg - 1)"
    and "lastScannedBlock + 1 \<le> to_block"
    and "get_all_entries (source w) (lastScannedBlock + 1) to_block (event_to_listen cfg) = Inr es"
  shows "\<exists>st' fx. cycle cfg w st = Inr st' \<and> trace st' = trace st @ fx \<and>
           attempts fx = es \<and>
           length (failures fx) =
             length (filter (\<lambda>j. \<not> fst (process_event (dest w j) (private_key cfg) (es ! j)))
                       [0..<length es]) \<and>
           last_scanned_block st' = PInt to_block \<and> synced st'"
proof -
  from scan_cycle_answered [OF assms]
  obtain st' sx where st': "cycle cfg w st = Inr st'" "attempts sx = []" "failures sx = []"
    "last_scanned_block st' = PInt to_block" "synced st'"
    "trace st' = trace st @ sx @ process_events (dest w) (private_key cfg) 0 es @
       [WriteState (dict_set (state st) ''last_scanned_block'' (PInt to_block)),
        Sleep (polling_interval_seconds cfg)]"
    by blast
  define fx where "fx = sx @ process_events (dest w) (private_key cfg) 0 es @
       [WriteState (dict_set (state st) ''last_scanned_block'' (PInt to_block)),
        Sleep (polling_interval_seconds cfg)]"
  have a: "attempts fx = es"
    by (simp add: fx_def observers st'(2) process_events_attempts)
  have f: "length (failures fx) =
             length (filter (\<lambda>j. \<not> fst (process_event (dest w j) (private_key cfg) (es ! j)))
                       [0..<length es])"
    using process_events_failures [of "dest w" "private_key cfg" 0 es]
    by (simp add: fx_def observers st'(3))
  from st' a f show ?thesis
    unfolding fx_def [symmetric] by blast
qed

text \<open>
  Two events, the destination node down during the first call only: the first call
  fails and is logged, the second is made and succeeds, and the cursor moves.
\<close>

theorem batch_failures_isolated_witness:
  "get_all_entries (source world_flaky) 501 600 (event_to_listen cfg100) = Inr [ev550, ev560] \<and>
   fst (process_event (dest world_flaky 0) (private_key cfg100) ev550) = False \<and>
   fst (process_event (dest world_flaky 1) (private_key cfg100) ev560) = True \<and>
   attempts (trace_of (cycle cfg100 world_flaky (resumed 500))) = [ev550, ev560] \<and>
   failures (trace_of (cycle cfg100 world_flaky (resumed 500))) = [ConnectionError] \<and>
   hashes (trace_of (cycle cfg100 world_flaky (resumed 500))) = [[0, 6, 5, 9, 1]] \<and>
   cursor_of (cycle cfg100 world_flaky (resumed 500)) = Inr (PInt 600)"
  using batch_failures_isolated
    [of world_flaky 650 "resumed 500" 500 600 cfg100 "[ev550, ev560]"]
  by (simp add: run_defs observers Let_def)

section \<open>The simulated submission (C7)\<close>

text \<open>
  C7, as amended. \<^verbatim>\<open>process_event\<close> has one mode only, the simulation. It never sends
  a transaction to the network. When it succeeds it has built the transaction for the
  mint call of the event, has signed it, and has logged as simulated hash the hash of
  the signed raw transaction, a function of the signed payload alone; what it returns is
  the boolean \<^verbatim>\<open>True\<close>, not the hash. When it fails it logs no hash.
\<close>

theorem simulated_submission:
  "sends (snd (process_event w3 key e)) = [] \<and>
   (if fst (process_event w3 key e)
    then \<exists>nonce price tx raw.
           get_transaction_count w3 (relayer_address w3) = Inr nonce \<and>
           gas_price w3 = Inr price \<and>
           build_transaction w3 (mint_call e)
             \<lparr>tx_from = relayer_address w3, tx_nonce = nonce, tx_gas = 2000000,
              tx_gasPrice = price\<rparr> = Inr tx \<and>
           sign_transaction w3 tx key = Inr raw \<and>
           hashes (snd (process_event w3 key e)) = [keccak w3 raw]
    else hashes (snd (process_event w3 key e)) = [])"
  by (simp add: process_event_def Let_def observers split: sum.splits)

theorem simulated_submission_witness:
  "fst (process_event ok_client ''0xaa'' ev550) = True \<and>
   sends (snd (process_event ok_client ''0xaa'' ev550)) = [] \<and>
   hashes (snd (process_event ok_client ''0xaa'' ev550)) = [keccak ok_client [1, 5, 5, 5, 0]]"
  using simulated_submission [of ok_client "''0xaa''" ev550]
  by (simp add: run_defs observers Let_def)

text \<open>
  The claim as stated fails on what is returned: for the event of block 550 the signed
  payload is [1, 5, 5, 5, 0] and its hash [0, 5, 5, 5, 1], the hash is the content of the
  last log line, and the value returned is \<^verbatim>\<open>True\<close>.
\<close>

theorem process_event_returns_flag:
  "sign_transaction ok_client [5, 5, 5, 0] ''0xaa'' = Inr [1, 5, 5, 5, 0] \<and>
   keccak ok_client [1, 5, 5, 5, 0] = [0, 5, 5, 5, 1] \<and>
   process_event ok_client ''0xaa'' ev550 =
     (True,
      [Log (MsgProcessing [5, 5, 0]), Log (MsgPreparing 5 ''0xT'' ''0xR''),
       BuildTransaction (MintTokens ''0xT'' ''0xR'' 5 [5, 5, 0])
         \<lparr>tx_from = ''0xRelayer'', tx_nonce = 7, tx_gas = 2000000, tx_gasPrice = 20\<rparr>,
       SignTransaction [5, 5, 5, 0] ''0xaa'', Log MsgSigned, Log MsgSimulation,
       Log MsgSubmitting, Sleep 1, Log (MsgSimulatedHash [0, 5, 5, 5, 1])])"
  by (simp add: run_defs Let_def)

section \<open>The sleep at the end of a cycle (C8)\<close>

text \<open>
  C8, as amended. Every cycle that completes ends with a sleep of the polling interval,
  whether it scanned or not: after a cycle has moved the cursor to \<open>to_block\<close> and
  written it to the state file, the loop sleeps the polling interval before the next
  range also when \<open>to_block\<close> is below the head.
\<close>

theorem completed_cycle_sleeps:
  assumes "block_number (source w) = Inr headBlock"
    and "last_scanned_block st = PInt lastScannedBlock"
    and "to_block = min headBlock (lastScannedBlock + 1 + max_blocks_per_scan cfg - 1)"
  shows "\<exists>st' fx. cycle cfg w st = Inr st' \<and>
           trace st' = trace st @ fx @ [Sleep (polling_interval_seconds cfg)] \<and>
           (if lastScannedBlock + 1 \<le> to_block
            then last_scanned_block st' = PInt to_block \<and> synced st'
            else last_scanned_block st' = PInt lastScannedBlock)"
proof -
  have add: "py_add1 (last_scanned_block st) = Inr (lastScannedBlock + 1)"
    by (simp add: assms(2))
  show ?thesis
  proof (cases "lastScannedBlock + 1 \<le> to_block")
    case True
    from scan_cycle_synced [OF assms(1) add assms(3) True]
    show ?thesis using True by auto
  next
    case False
    then have "min headBlock (lastScannedBlock + 1 + max_blocks_per_scan cfg - 1)
                 < lastScannedBlock + 1"
      unfolding assms(3) by (simp only: not_le)
    from cycle_idle [OF assms(1) add this]
    show ?thesis using False by (simp add: assms(2))
  qed
qed

theorem completed_cycle_sleeps_witness:
  "cursor_of (cycle cfg100 world_backlog (resumed 500)) = Inr (PInt 600) \<and>
   sleeps (trace_of (cycle cfg100 world_backlog (resumed 500))) = [1, 1, 30] \<and>
   sleeps (trace_of (cycle cfg100 world_idle (resumed 1000))) = [30]"
  using completed_cycle_sleeps [of world_backlog 650 "resumed 500" 500 600 cfg100]
    completed_cycle_sleeps [of world_idle 1000 "resumed 1000" 1000 1000 cfg100]
  by (simp add: run_defs observers Let_def)

text \<open>
  The claim as stated fails in the scenario of the specification: cursor 500, head 650,
  at most 100 blocks. The cursor becomes 600, below the head, and the last thing the
  cycle does is to sleep the 30 seconds of the polling interval.
\<close>

theorem backlog_cycle_sleeps:
  "block_number (source world_backlog) = Inr 650 \<and>
   cursor_of (cycle cfg100 world_backlog (resumed 500)) = Inr (PInt 600) \<and>
   (600::int) < 650 \<and>
   polling_interval_seconds cfg100 = 30 \<and>
   last (trace_of (cycle cfg100 world_backlog (resumed 500))) = Sleep 30"
  by (simp add: run_defs Let_def)

section \<open>Loading the state file (C9)\<close>

text \<open>
  C9, as amended. On a missing state file \<^verbatim>\<open>load_state\<close> returns the empty state
  without raising, the constructor finds no cursor in it, and \<^verbatim>\<open>run\<close> chooses the
  starting block. On a file that exists but cannot be read or decoded, \<^verbatim>\<open>load_state\<close>
  raises the exception that opening or decoding the file raises, whatever its class;
  the constructor does not catch it, so that the service does not start. On a file that
  decodes, \<^verbatim>\<open>load_state\<close> returns the decoded value.
\<close>

theorem load_state_missing_or_unreadable:
  "load_state Missing = Inr (PDict []) \<and>
   cursor_of (init Missing) = Inr PNone \<and>
   cursor_of (boot cfg node Missing) =
     (case initial_scan_block cfg of
        Latest \<Rightarrow> (case block_number node of Inl e \<Rightarrow> Inl e | Inr h \<Rightarrow> Inr (PInt h))
      | Explicit n \<Rightarrow> Inr (PInt n)) \<and>
   load_state (Unreadable e') = Inl e' \<and>
   init (Unreadable e') = Inl e' \<and>
   boot cfg node (Unreadable e') = Inl e' \<and>
   load_state (Stored v) = Inr v"
  by (simp add: load_state_def init_def boot_def startup_def cursor_of_def dict_get_empty
      split: initial_scan.splits sum.splits)

theorem load_state_missing_or_unreadable_witness:
  "load_state Missing = Inr (PDict []) \<and>
   cursor_of (boot cfg100 (serving chain3 1000) Missing) = Inr (PInt 1000) \<and>
   boot cfg100 (serving chain3 1000) (Unreadable UnicodeDecodeError) = Inl UnicodeDecodeError \<and>
   load_state (Stored (PDict [(''last_scanned_block'', PInt 600)])) =
     Inr (PDict [(''last_scanned_block'', PInt 600)])"
  using load_state_missing_or_unreadable
    [of cfg100 "serving chain3 1000" UnicodeDecodeError
        "PDict [(''last_scanned_block'', PInt 600)]"]
  by (simp add: run_defs)

text \<open>
  The claim as stated fails on a file that is not valid JSON, and on one that is not
  valid UTF-8: loading raises, and so do the constructor and the start of the service.
\<close>

theorem corrupt_store_raises:
  "load_state (Unreadable JSONDecodeError) = Inl JSONDecodeError \<and>
   init (Unreadable JSONDecodeError) = Inl JSONDecodeError \<and>
   boot cfg100 (serving chain3 1000) (Unreadable JSONDecodeError) = Inl JSONDecodeError \<and>
   load_state (Unreadable UnicodeDecodeError) = Inl UnicodeDecodeError \<and>
   init (Unreadable UnicodeDecodeError) = Inl UnicodeDecodeError"
  by (simp add: load_state_def init_def boot_def)

section \<open>A stored cursor of zero (C10)\<close>

text \<open>
  C10. When the value stored under \<^verbatim>\<open>last_scanned_block\<close> is falsy (the number 0,
  \<^verbatim>\<open>null\<close>, \<^verbatim>\<open>false\<close>, an empty string, list or object), the service starts with the
  same cursor as with no state file at all: the head of the chain when
  \<^verbatim>\<open>initial_scan_block\<close> is \<^verbatim>\<open>'latest'\<close>, the configured number otherwise. The stored
  value is not resumed from.
\<close>

theorem falsy_cursor_is_unset:
  assumes "\<not> truthy (dict_get d ''last_scanned_block'')"
  shows "cursor_of (boot cfg node (Stored (PDict d))) = cursor_of (boot cfg node Missing) \<and>
         cursor_of (boot cfg node (Stored (PDict d))) =
           (case initial_scan_block cfg of
              Latest \<Rightarrow> (case block_number node of Inl e \<Rightarrow> Inl e | Inr h \<Rightarrow> Inr (PInt h))
            | Explicit n \<Rightarrow> Inr (PInt n))"
  using assms
  by (simp add: boot_def init_def load_state_def startup_def cursor_of_def dict_get_empty
      split: initial_scan.splits sum.splits)

text \<open>A stored cursor of 0, and a stored \<^verbatim>\<open>null\<close>, with the head at block 1000.\<close>

theorem falsy_cursor_is_unset_witness:
  "\<not> truthy (dict_get [(''last_scanned_block'', PInt 0)] ''last_scanned_block'') \<and>
   cursor_of (boot cfg100 (serving chain3 1000) (Stored (PDict [(''last_scanned_block'', PInt 0)]))) =
     Inr (PInt 1000) \<and>
   cursor_of (boot cfg100 (serving chain3 1000) Missing) = Inr (PInt 1000) \<and>
   cursor_of (boot cfg100 (serving chain3 1000) (Stored (PDict [(''last_scanned_block'', PNone)]))) =
     Inr (PInt 1000) \<and>
   cursor_of (boot cfg100 (serving chain3 1000) (Stored (PDict [(''last_scanned_block'', PInt 600)]))) =
     Inr (PInt 600)"
  using falsy_cursor_is_unset [of "[(''last_scanned_block'', PInt 0)]" cfg100 "serving chain3 1000"]
  by (simp add: run_defs)

end
